theory Spec2Isabelle
  imports Complex_Main
begin

section \<open>The environment of the class: numpy's global generator and the module's globals\<close>

text \<open>
  The class \<open>DifferentialEvolution\<close> of \<open>DiffEvo.ipynb\<close> draws every random number from
  numpy's module-wide generator (\<open>np.random.seed\<close>, \<open>np.random.rand\<close>,
  \<open>np.random.choice\<close>, \<open>np.random.uniform\<close>), and its method
  \<open>diff_evolution_solver\<close> reads the two names \<open>kmut\<close> and \<open>bounds\<close> without
  \<open>self.\<close>, that is, as globals of the notebook.

  numpy is not part of the repository, so the generator is a parameter: a state type \<open>'g\<close>
  with the three operations the class calls. Floating-point numbers are modelled by the
  reals: no rounding, no overflow to infinity, no NaN. Where the source's float64
  arithmetic overflows (bounds whose difference is not a finite float, say), the model
  does not follow it.
\<close>

datatype error = ValueError | IndexError | NameError

record 'g np_random =
  seed_state :: "nat \<Rightarrow> 'g"
  random_sample :: "'g \<Rightarrow> real \<times> 'g"
  choice2 :: "nat \<Rightarrow> 'g \<Rightarrow> (nat \<times> nat) \<times> 'g"

text \<open>
  \<open>seed_state s\<close> is the generator state after \<open>np.random.seed(s)\<close>;
  \<open>random_sample\<close> is one draw of \<open>np.random.rand\<close> / \<open>np.random.uniform()\<close>;
  \<open>choice2 n\<close> is \<open>np.random.choice(np.arange(n), 2, replace = False)\<close> for \<open>n \<ge> 2\<close>.

  The module state holds the generator's current state, the state a call
  \<open>np.random.seed(None)\<close> would take from the operating system (a later call would take
  another one; nothing below seeds twice from the operating system), and the values bound
  to the global names \<open>kmut\<close> and \<open>bounds\<close> (\<open>None\<close>: the name is not defined). The
  globals are not reassigned while a run is drained.
\<close>

record 'g module_state =
  np_state :: 'g
  os_entropy :: 'g
  glob_kmut :: "real option"
  glob_bounds :: "(real \<times> real) list option"

section \<open>The engine\<close>

text \<open>The attributes \<open>__init__\<close> stores; \<open>data\<close> is closed over by \<open>func\<close>.\<close>

record engine =
  func :: "real list \<Rightarrow> real"
  kmut :: real
  kcross :: real
  nparam :: int
  npop :: int
  niter :: int
  bounds :: "(real \<times> real) list option"
  guess :: "real list option"

text \<open>
  \<open>__init__\<close> stores its arguments and calls \<open>np.random.seed(seed)\<close>, which raises
  \<open>ValueError\<close> for an integer outside \<open>0 .. 2^32 - 1\<close>.
\<close>

definition init ::
  "'g np_random \<Rightarrow> (real list \<Rightarrow> real) \<Rightarrow> real \<Rightarrow> real \<Rightarrow> int \<Rightarrow> int \<Rightarrow> int \<Rightarrow>
   (real \<times> real) list option \<Rightarrow> real list option \<Rightarrow> int option \<Rightarrow> 'g module_state \<Rightarrow>
   error + (engine \<times> 'g module_state)" where
  "init R f km kc np0 npop0 niter0 bs gs seed w =
     (let e = \<lparr>func = f, kmut = km, kcross = kc, nparam = np0, npop = npop0,
               niter = niter0, bounds = bs, guess = gs\<rparr>
      in case seed of
           None \<Rightarrow> Inr (e, w\<lparr>np_state := os_entropy w\<rparr>)
         | Some s \<Rightarrow>
             if 0 \<le> s \<and> s < 2 ^ 32 then Inr (e, w\<lparr>np_state := seed_state R (nat s)\<rparr>)
             else Inl ValueError)"

subsection \<open>population_generator\<close>

text \<open>\<open>np.random.rand(k)\<close>: \<open>k\<close> draws in sequence.\<close>

fun draws :: "'g np_random \<Rightarrow> nat \<Rightarrow> 'g \<Rightarrow> real list \<times> 'g" where
  "draws R 0 g = ([], g)"
| "draws R (Suc k) g =
     (let (u, g1) = random_sample R g; (us, g2) = draws R k g1 in (u # us, g2))"

text \<open>\<open>np.random.rand(m, n)\<close>: \<open>m\<close> rows of \<open>n\<close> draws, filled row by row.\<close>

fun rand2 :: "'g np_random \<Rightarrow> nat \<Rightarrow> nat \<Rightarrow> 'g \<Rightarrow> real list list \<times> 'g" where
  "rand2 R 0 n g = ([], g)"
| "rand2 R (Suc m) n g =
     (let (row, g1) = draws R n g; (rows, g2) = rand2 R m n g1 in (row # rows, g2))"

text \<open>Python's truth value of an optional tuple: \<open>None\<close> and \<open>()\<close> are false.\<close>

definition truthy :: "'a list option \<Rightarrow> bool" where
  "truthy x = (case x of None \<Rightarrow> False | Some xs \<Rightarrow> xs \<noteq> [])"

text \<open>
  The list comprehension
  \<open>[bounds[ii][0] + pop[ii] * (bounds[ii][1] - bounds[ii][0]) for ii in range(len(pop))]\<close>;
  \<open>bounds[ii]\<close> raises \<open>IndexError\<close> when there are fewer bounds than rows. The
  rescaling is exact here; in float64 it overflows when \<open>high - low\<close> is not finite.
\<close>

definition scale_bounds :: "(real \<times> real) list \<Rightarrow> real list list \<Rightarrow> error + real list list" where
  "scale_bounds bs m =
     (if length bs < length m then Inl IndexError
      else Inr (map (\<lambda>ii. map (\<lambda>u. fst (bs ! ii) + u * (snd (bs ! ii) - fst (bs ! ii))) (m ! ii))
                  [0..<length m]))"

text \<open>
  \<open>pop[:, 0] = np.array(guess)\<close> on an array of \<open>length m\<close> rows and \<open>n\<close> columns:
  column 0 must exist, and the guess must have one entry per row or a single entry
  (which numpy broadcasts).
\<close>

definition set_guess :: "real list \<Rightarrow> nat \<Rightarrow> real list list \<Rightarrow> error + real list list" where
  "set_guess gs n m =
     (if n = 0 then Inl IndexError
      else if length gs = length m then Inr (map (\<lambda>ii. (m ! ii)[0 := gs ! ii]) [0..<length m])
      else if length gs = 1 then Inr (map (\<lambda>ii. (m ! ii)[0 := gs ! 0]) [0..<length m])
      else Inl ValueError)"

text \<open>\<open>pop.T\<close> of an array with \<open>n\<close> columns, as the list of its \<open>n\<close> rows.\<close>

definition transpose_T :: "nat \<Rightarrow> real list list \<Rightarrow> real list list" where
  "transpose_T n m = map (\<lambda>i. map (\<lambda>row. row ! i) m) [0..<n]"

text \<open>
  \<open>np.random.rand\<close> raises \<open>ValueError\<close> on a negative dimension. With bounds and
  \<open>nparam = 0\<close> the comprehension is empty and \<open>np.array([])\<close> is one-dimensional: then
  \<open>pop[:, 0]\<close> raises \<open>IndexError\<close>, and \<open>pop.T\<close> has no rows to iterate over.
\<close>

definition population_generator ::
  "'g np_random \<Rightarrow> engine \<Rightarrow> 'g \<Rightarrow> error + (real list list \<times> 'g)" where
  "population_generator R e g =
     (if nparam e < 0 \<or> npop e < 0 then Inl ValueError
      else
        let (m, g1) = rand2 R (nat (nparam e)) (nat (npop e)) g;
            one_dim = (truthy (bounds e) \<and> nparam e = 0)
        in case (if truthy (bounds e) then scale_bounds (the (bounds e)) m else Inr m) of
             Inl err \<Rightarrow> Inl err
           | Inr m1 \<Rightarrow>
               (case (if truthy (guess e)
                      then (if one_dim then Inl IndexError
                            else set_guess (the (guess e)) (nat (npop e)) m1)
                      else Inr m1) of
                  Inl err \<Rightarrow> Inl err
                | Inr m2 \<Rightarrow>
                    Inr (if one_dim then [] else transpose_T (nat (npop e)) m2, g1)))"

subsection \<open>least_error_idx\<close>

text \<open>
  The loop \<open>for idx, row in enumerate(pop): error[idx] = self.func(row, self.data)\<close>. The
  population has \<open>npop\<close> rows or none (lemma \<open>population_generator_length\<close>), so \<open>idx\<close> is
  always an index of \<open>error = np.zeros(self.npop)\<close>.
\<close>

fun fill_errors :: "(real list \<Rightarrow> real) \<Rightarrow> nat \<Rightarrow> real list list \<Rightarrow> real list \<Rightarrow> real list" where
  "fill_errors f idx [] er = er"
| "fill_errors f idx (row # rows) er = fill_errors f (Suc idx) rows (er[idx := f row])"

text \<open>\<open>np.argmin\<close>: the index of the first occurrence of the minimum.\<close>

definition argmin :: "real list \<Rightarrow> nat" where
  "argmin xs = length (takeWhile (\<lambda>x. x \<noteq> Min (set xs)) xs)"

text \<open>\<open>np.argmin\<close> raises \<open>ValueError\<close> on an empty array.\<close>

definition least_error_idx :: "engine \<Rightarrow> real list list \<Rightarrow> error + (nat \<times> real)" where
  "least_error_idx e p =
     (let er = fill_errors (func e) 0 p (replicate (nat (npop e)) 0)
      in if er = [] then Inl ValueError else Inr (argmin er, er ! argmin er))"

subsection \<open>diff_evolution_solver\<close>

text \<open>
  \<open>bestfit = pop[lsterr_idx]\<close> is a numpy view of a row of the population, so a later
  \<open>pop[i] = trial\<close> on that row is seen through it; \<open>bestfit = trial\<close> rebinds the name to
  the trial array, which nothing changes afterwards.
\<close>

datatype bestref = RowView nat | Own "real list"

record 'g state =
  pop :: "real list list"
  bestfit :: bestref
  lst_err :: real
  rng :: 'g
  emitted :: "(real list \<times> real) list"

definition best_value :: "'g state \<Rightarrow> real list" where
  "best_value s = (case bestfit s of RowView k \<Rightarrow> pop s ! k | Own v \<Rightarrow> v)"

text \<open>
  The statements before the loops. \<open>pop[lsterr_idx]\<close> raises \<open>IndexError\<close> when the
  population has no such row.
\<close>

definition solver_start ::
  "'g np_random \<Rightarrow> engine \<Rightarrow> 'g module_state \<Rightarrow> error + 'g state" where
  "solver_start R e w =
     (case population_generator R e (np_state w) of
        Inl err \<Rightarrow> Inl err
      | Inr (p, g1) \<Rightarrow>
          (case least_error_idx e p of
             Inl err \<Rightarrow> Inl err
           | Inr (lsterr_idx, le) \<Rightarrow>
               if lsterr_idx < length p
               then Inr \<lparr>pop = p, bestfit = RowView lsterr_idx, lst_err = le, rng = g1,
                         emitted = []\<rparr>
               else Inl IndexError))"

text \<open>
  numpy broadcasting of one-dimensional shapes: two lengths are compatible when they are
  equal or one of them is 1.
\<close>

definition bdim :: "nat \<Rightarrow> nat \<Rightarrow> nat option" where
  "bdim a b = (if a = b then Some a else if a = 1 then Some b else if b = 1 then Some a else None)"

definition bget :: "'a list \<Rightarrow> nat \<Rightarrow> 'a" where
  "bget xs j = (if length xs = 1 then xs ! 0 else xs ! j)"

text \<open>
  An elementwise operation on two arrays, as in \<open>pop[a] - pop[b]\<close> and \<open>bestfit + ...\<close>:
  shapes that cannot be broadcast raise \<open>ValueError\<close>.
\<close>

definition np_binop ::
  "(real \<Rightarrow> real \<Rightarrow> real) \<Rightarrow> real list \<Rightarrow> real list \<Rightarrow> error + real list" where
  "np_binop f x y =
     (case bdim (length x) (length y) of
        None \<Rightarrow> Inl ValueError
      | Some n \<Rightarrow> Inr (map (\<lambda>j. f (bget x j) (bget y j)) [0..<n]))"

text \<open>
  Mutation: \<open>rng_idx = np.random.choice(idx_list, 2, replace = False)\<close>, which raises
  \<open>ValueError\<close> when \<open>idx_list = np.arange(self.npop)\<close> has fewer than two entries, then
  \<open>trial = bestfit + kmut * (pop[rng_idx[0]] - pop[rng_idx[1]])\<close>, where \<open>kmut\<close> is the
  global name (\<open>NameError\<close> when it is not defined). numpy returns two distinct indices
  below \<open>npop\<close>, so both rows exist.
\<close>

definition mutation ::
  "'g np_random \<Rightarrow> engine \<Rightarrow> 'g module_state \<Rightarrow> 'g state \<Rightarrow> error + (real list \<times> 'g)" where
  "mutation R e w s =
     (if nat (npop e) < 2 then Inl ValueError
      else
        let (rng_idx, g1) = choice2 R (nat (npop e)) (rng s)
        in case glob_kmut w of
             None \<Rightarrow> Inl NameError
           | Some km \<Rightarrow>
               (case np_binop (-) (pop s ! fst rng_idx) (pop s ! snd rng_idx) of
                  Inl err \<Rightarrow> Inl err
                | Inr d \<Rightarrow>
                    (case np_binop (+) (best_value s) (map ((*) km) d) of
                       Inl err \<Rightarrow> Inl err
                     | Inr t \<Rightarrow> Inr (t, g1))))"

text \<open>\<open>np.where(cross, trial, ind)\<close>, with broadcasting.\<close>

definition np_where :: "bool list \<Rightarrow> real list \<Rightarrow> real list \<Rightarrow> error + real list" where
  "np_where c x y =
     (case bdim (length c) (length x) of
        None \<Rightarrow> Inl ValueError
      | Some d \<Rightarrow>
          (case bdim d (length y) of
             None \<Rightarrow> Inl ValueError
           | Some n \<Rightarrow> Inr (map (\<lambda>j. if bget c j then bget x j else bget y j) [0..<n])))"

text \<open>
  Crossover: \<open>cross = np.concatenate((np.random.rand(3) <= self.kcross, np.array([True])))\<close>
  and \<open>trial = np.where(cross, trial, ind)\<close>.
\<close>

definition crossover ::
  "'g np_random \<Rightarrow> engine \<Rightarrow> real list \<Rightarrow> real list \<Rightarrow> 'g \<Rightarrow> error + (real list \<times> 'g)" where
  "crossover R e trial ind g =
     (let (us, g1) = draws R 3 g;
          cross = map (\<lambda>u. u \<le> kcross e) us @ [True]
      in case np_where cross trial ind of
           Inl err \<Rightarrow> Inl err
         | Inr t \<Rightarrow> Inr (t, g1))"

text \<open>
  Bound repair, the loop \<open>for j, param in enumerate(trial)\<close> over the indices \<open>js\<close>, with
  the global \<open>bounds\<close>: \<open>bounds[j]\<close> raises \<open>IndexError\<close> past the end of the tuple, and so
  does \<open>pop[:, j]\<close> past the last of the \<open>ncols\<close> columns of the population.
\<close>

fun repair ::
  "'g np_random \<Rightarrow> 'g module_state \<Rightarrow> real list list \<Rightarrow> nat \<Rightarrow> nat list \<Rightarrow> real list \<Rightarrow> 'g \<Rightarrow>
   error + (real list \<times> 'g)" where
  "repair R w p ncols [] trial g = Inr (trial, g)"
| "repair R w p ncols (j # js) trial g =
     (case glob_bounds w of
        None \<Rightarrow> Inl NameError
      | Some bs \<Rightarrow>
          if length bs \<le> j then Inl IndexError
          else if \<not> (trial ! j \<ge> fst (bs ! j) \<and> trial ! j \<le> snd (bs ! j)) then
            (if ncols \<le> j then Inl IndexError
             else
               let col = map (\<lambda>row. row ! j) p;
                   (u, g1) = random_sample R g
               in repair R w p ncols js
                    (trial[j := Min (set col) + u * (Max (set col) - Min (set col))]) g1)
          else repair R w p ncols js trial g)"

text \<open>
  \<open>pop[i] = trial\<close>: the trial must have the row's length, or length 1 (broadcast);
  otherwise numpy raises \<open>ValueError\<close>.
\<close>

definition assign_row :: "real list list \<Rightarrow> nat \<Rightarrow> real list \<Rightarrow> error + real list list" where
  "assign_row p i trial =
     (if length trial = length (p ! i) then Inr (p[i := trial])
      else if length trial = 1 then Inr (p[i := replicate (length (p ! i)) (trial ! 0)])
      else Inl ValueError)"

text \<open>
  The trial vector of one pass of the inner loop for member \<open>i\<close> (\<open>ind = pop[i]\<close>):
  mutation, crossover, bound repair.
\<close>

definition make_trial ::
  "'g np_random \<Rightarrow> engine \<Rightarrow> 'g module_state \<Rightarrow> nat \<Rightarrow> 'g state \<Rightarrow> error + (real list \<times> 'g)" where
  "make_trial R e w i s =
     (case mutation R e w s of
        Inl err \<Rightarrow> Inl err
      | Inr (t0, g1) \<Rightarrow>
          (case crossover R e t0 (pop s ! i) g1 of
             Inl err \<Rightarrow> Inl err
           | Inr (t1, g2) \<Rightarrow> repair R w (pop s) (nat (nparam e)) [0..<length t1] t1 g2))"

text \<open>One pass of the body of the inner loop: the trial, selection, global update.\<close>

definition inner_step ::
  "'g np_random \<Rightarrow> engine \<Rightarrow> 'g module_state \<Rightarrow> nat \<Rightarrow> 'g state \<Rightarrow> error + 'g state" where
  "inner_step R e w i s =
     (case make_trial R e w i s of
        Inl err \<Rightarrow> Inl err
      | Inr (trial, g3) \<Rightarrow>
          let trial_err = func e trial in
          if trial_err < func e (pop s ! i) then
            (case assign_row (pop s) i trial of
               Inl err \<Rightarrow> Inl err
             | Inr p' \<Rightarrow>
                 if trial_err < lst_err s
                 then Inr (s\<lparr>pop := p', bestfit := Own trial, lst_err := trial_err, rng := g3,
                             emitted := emitted s @ [(trial, trial_err)]\<rparr>)
                 else Inr (s\<lparr>pop := p', rng := g3\<rparr>))
          else Inr (s\<lparr>rng := g3\<rparr>))"

text \<open>
  The loops. A loop stops at the first error and returns it with the state at the start
  of the failing pass (the elements yielded so far are in \<open>emitted\<close>).
\<close>

fun inner_loop ::
  "'g np_random \<Rightarrow> engine \<Rightarrow> 'g module_state \<Rightarrow> nat list \<Rightarrow> 'g state \<Rightarrow>
   'g state \<times> error option" where
  "inner_loop R e w [] s = (s, None)"
| "inner_loop R e w (i # is) s =
     (case inner_step R e w i s of
        Inl err \<Rightarrow> (s, Some err)
      | Inr s' \<Rightarrow> inner_loop R e w is s')"

fun outer_loop ::
  "'g np_random \<Rightarrow> engine \<Rightarrow> 'g module_state \<Rightarrow> nat \<Rightarrow> 'g state \<Rightarrow> 'g state \<times> error option" where
  "outer_loop R e w 0 s = (s, None)"
| "outer_loop R e w (Suc n) s =
     (case inner_loop R e w [0..<length (pop s)] s of
        (s', Some err) \<Rightarrow> (s', Some err)
      | (s', None) \<Rightarrow> outer_loop R e w n s')"

text \<open>
  The generator drained: the elements it yields, and the exception that ended it, if any.
\<close>

definition diff_evolution_solver ::
  "'g np_random \<Rightarrow> engine \<Rightarrow> 'g module_state \<Rightarrow> (real list \<times> real) list \<times> error option" where
  "diff_evolution_solver R e w =
     (case solver_start R e w of
        Inl err \<Rightarrow> ([], Some err)
      | Inr s0 \<Rightarrow>
          (case outer_loop R e w (nat (niter e)) s0 of (s, r) \<Rightarrow> (emitted s, r)))"

text \<open>
  The property \<open>result\<close>: \<open>res, err = zip(*tuple(self.diff_evolution_solver()))\<close> and
  \<open>return res[-1]\<close>. On an empty tuple \<open>zip()\<close> yields nothing and the unpacking into two
  names raises \<open>ValueError\<close>.
\<close>

definition result :: "'g np_random \<Rightarrow> engine \<Rightarrow> 'g module_state \<Rightarrow> error + real list" where
  "result R e w =
     (case diff_evolution_solver R e w of
        (ys, Some err) \<Rightarrow> Inl err
      | (ys, None) \<Rightarrow> if ys = [] then Inl ValueError else Inr (fst (last ys)))"

section \<open>Notions used to state the properties\<close>

text \<open>
  The passes of the inner loop in the order the two nested loops run them, and the state
  after the first \<open>k\<close> of them.
\<close>

definition schedule :: "nat \<Rightarrow> nat \<Rightarrow> nat list" where
  "schedule n m = concat (replicate n [0..<m])"

definition state_after ::
  "'g np_random \<Rightarrow> engine \<Rightarrow> 'g module_state \<Rightarrow> nat \<Rightarrow> 'g state \<Rightarrow> 'g state" where
  "state_after R e w k s0 =
     fst (inner_loop R e w (take k (schedule (nat (niter e)) (length (pop s0)))) s0)"

text \<open>A vector satisfies the bounds: \<open>low_j \<le> x_j \<le> high_j\<close> at every index.\<close>

definition in_bounds :: "(real \<times> real) list \<Rightarrow> real list \<Rightarrow> bool" where
  "in_bounds bs v =
     (length v \<le> length bs \<and>
      list_all (\<lambda>j. fst (bs ! j) \<le> v ! j \<and> v ! j \<le> snd (bs ! j)) [0..<length v])"

text \<open>The \<open>k\<close>-th draw of the generator from state \<open>g\<close>, counting from 0.\<close>

definition nth_state :: "'g np_random \<Rightarrow> nat \<Rightarrow> 'g \<Rightarrow> 'g" where
  "nth_state R k g = ((\<lambda>x. snd (random_sample R x)) ^^ k) g"

definition draw_at :: "'g np_random \<Rightarrow> 'g \<Rightarrow> nat \<Rightarrow> real" where
  "draw_at R g k = fst (random_sample R (nth_state R k g))"


text \<open>
  The state at the end of generation \<open>n\<close>, with the exception that stopped the run
  before, if any.
\<close>

definition generation_end ::
  "'g np_random \<Rightarrow> engine \<Rightarrow> 'g module_state \<Rightarrow> nat \<Rightarrow> error + ('g state \<times> error option)" where
  "generation_end R e w n =
     (case solver_start R e w of
        Inl err \<Rightarrow> Inl err
      | Inr s0 \<Rightarrow> Inr (outer_loop R e w n s0))"

text \<open>
  A drawn value \<open>u\<close> as \<open>population_generator\<close> stores it for parameter \<open>j\<close>: rescaled
  into the bound interval when bounds are configured, as drawn otherwise.
\<close>

definition scaled :: "(real \<times> real) list option \<Rightarrow> nat \<Rightarrow> real \<Rightarrow> real" where
  "scaled b j u =
     (if truthy b then fst (the b ! j) + u * (snd (the b ! j) - fst (the b ! j)) else u)"

text \<open>
  The stored least error is the cost of the best-fit vector, and a best-fit that is still
  a view of the population points at an existing row.
\<close>

definition best_ok :: "engine \<Rightarrow> 'g state \<Rightarrow> bool" where
  "best_ok e s = (lst_err s = func e (best_value s) \<and>
     (case bestfit s of RowView k \<Rightarrow> k < length (pop s) | Own v \<Rightarrow> True))"

text \<open>
  Every member has \<open>ncols\<close> parameters and satisfies the bounds, and so do the best-fit
  vector and every vector yielded so far.
\<close>

definition bounded_state :: "(real \<times> real) list \<Rightarrow> nat \<Rightarrow> 'g state \<Rightarrow> bool" where
  "bounded_state bs ncols s =
     (pop s \<noteq> [] \<and>
      list_all (\<lambda>row. length row = ncols \<and> in_bounds bs row) (pop s) \<and>
      (case bestfit s of RowView k \<Rightarrow> k < length (pop s) | Own v \<Rightarrow> in_bounds bs v) \<and>
      list_all (in_bounds bs) (map fst (emitted s)))"

section \<open>A concrete generator and configuration\<close>

text \<open>
  A small deterministic generator over counters (its draws cycle through 0, 1/4, 1/2, 3/4;
  its index pairs are two successive residues), the sum of the entries as objective, and a
  module state in which the globals \<open>kmut\<close> and \<open>bounds\<close> hold the values the engine is
  configured with.
\<close>

definition demo_gen :: "nat np_random" where
  "demo_gen =
     \<lparr>seed_state = (\<lambda>s. s),
      random_sample = (\<lambda>g. (real (g mod 4) / 4, Suc g)),
      choice2 = (\<lambda>n g. ((g mod n, Suc g mod n), Suc g))\<rparr>"

definition unit_bounds :: "(real \<times> real) list" where
  "unit_bounds = [(0, 1), (0, 1), (0, 1), (0, 1)]"

definition demo_env :: "nat module_state" where
  "demo_env = \<lparr>np_state = 5, os_entropy = 7, glob_kmut = Some (1 / 2),
                glob_bounds = Some unit_bounds\<rparr>"

definition demo_engine :: engine where
  "demo_engine =
     \<lparr>func = sum_list, kmut = 1 / 2, kcross = 1 / 2, nparam = 4, npop = 3, niter = 1,
      bounds = Some unit_bounds, guess = None\<rparr>"

text \<open>The module state right after \<open>np.random.seed(0)\<close>.\<close>

definition seeded_env :: "nat module_state" where
  "seeded_env = demo_env\<lparr>np_state := 0\<rparr>"

text \<open>The first state of the solver for \<open>demo_engine\<close> in \<open>seeded_env\<close>.\<close>

definition demo_state :: "nat state" where
  "demo_state =
     \<lparr>pop = [[0, 3 / 4, 1 / 2, 1 / 4], [1 / 4, 0, 3 / 4, 1 / 2], [1 / 2, 1 / 4, 0, 3 / 4]],
      bestfit = RowView 0, lst_err = 3 / 2, rng = 12, emitted = []\<rparr>"

text \<open>
  Variants of the configuration: more generations, and a single member with the first
  state of its solver.
\<close>

definition long_engine :: engine where
  "long_engine = demo_engine\<lparr>niter := 3\<rparr>"

definition single_engine :: engine where
  "single_engine = demo_engine\<lparr>npop := 1\<rparr>"

definition single_state :: "nat state" where
  "single_state =
     \<lparr>pop = [[0, 1 / 4, 1 / 2, 3 / 4]], bestfit = RowView 0, lst_err = 3 / 2, rng = 4,
      emitted = []\<rparr>"

text \<open>
  A constant objective, and guesses outside and inside the bounds, each with the state at
  the end of its first generation.
\<close>

definition zero_cost :: "real list \<Rightarrow> real" where
  "zero_cost v = 0"

definition guess_engine :: engine where
  "guess_engine = demo_engine\<lparr>func := zero_cost, guess := Some [5, 5, 5, 5]\<rparr>"




text \<open>Globals that differ from the configured values.\<close>

definition wide_bounds :: "(real \<times> real) list" where
  "wide_bounds = [(- 10, 10), (- 10, 10), (- 10, 10), (- 10, 10)]"

definition wide_env :: "nat module_state" where
  "wide_env = seeded_env\<lparr>glob_bounds := Some wide_bounds\<rparr>"

definition quarter_env :: "nat module_state" where
  "quarter_env = seeded_env\<lparr>glob_kmut := Some (1 / 4)\<rparr>"

text \<open>The end of the first generation of \<open>demo_engine\<close> in \<open>wide_env\<close>.\<close>

definition wide_state :: "nat state" where
  "wide_state =
     \<lparr>pop = [[0, 3 / 4, 1 / 2, 1 / 4], [- (1 / 8), 5 / 8, 3 / 4, 1 / 8], [1 / 8, 3 / 8, 0, 3 / 8]],
      bestfit = Own [1 / 8, 3 / 8, 0, 3 / 8], lst_err = 7 / 8, rng = 24,
      emitted = [([- (1 / 8), 5 / 8, 3 / 4, 1 / 8], 11 / 8), ([1 / 8, 3 / 8, 0, 3 / 8], 7 / 8)]\<rparr>"

text \<open>
  Further variants: no generation at all, the constant objective without a guess, two
  parameters, and a module state that differs from \<open>demo_env\<close> in the generator only.
\<close>

definition idle_engine :: engine where
  "idle_engine = demo_engine\<lparr>niter := 0\<rparr>"

definition flat_engine :: engine where
  "flat_engine = demo_engine\<lparr>func := zero_cost\<rparr>"

definition pair_engine :: engine where
  "pair_engine = demo_engine\<lparr>nparam := 2\<rparr>"


section \<open>The generator's draws\<close>

lemma nth_state_0 [simp]: "nth_state R 0 g = g"
  by (simp add: nth_state_def)

lemma nth_state_Suc: "nth_state R (Suc k) g = nth_state R k (snd (random_sample R g))"
  by (simp only: nth_state_def funpow_Suc_right o_apply)

lemma nth_state_add: "nth_state R a (nth_state R b g) = nth_state R (b + a) g"
  by (simp add: nth_state_def funpow_add add.commute)

lemma draw_at_0: "draw_at R g 0 = fst (random_sample R g)"
  by (simp add: draw_at_def)

lemma draw_at_Suc: "draw_at R g (Suc k) = draw_at R (snd (random_sample R g)) k"
  by (simp add: draw_at_def nth_state_Suc)

lemma draw_at_shift: "draw_at R (nth_state R n g) k = draw_at R g (n + k)"
  by (simp add: draw_at_def nth_state_add)

lemma draws_eq: "draws R n g = (map (draw_at R g) [0..<n], nth_state R n g)"
proof (induction n arbitrary: g)
  case 0
  show ?case by simp
next
  case (Suc n)
  have "map (draw_at R g) [0..<Suc n] =
        draw_at R g 0 # map (draw_at R (snd (random_sample R g))) [0..<n]"
    by (simp add: upt_conv_Cons map_Suc_upt [symmetric] draw_at_Suc del: upt_Suc)
  then show ?case
    by (simp add: Suc.IH draw_at_0 nth_state_Suc split: prod.splits del: upt_Suc)
qed


lemma rand2_eq:
  "rand2 R m n g =
     (map (\<lambda>j. map (\<lambda>i. draw_at R g (j * n + i)) [0..<n]) [0..<m], nth_state R (m * n) g)"
proof (induction m arbitrary: g)
  case 0
  show ?case by simp
next
  case (Suc m)
  have "map (\<lambda>j. map (\<lambda>i. draw_at R g (j * n + i)) [0..<n]) [0..<Suc m] =
        map (draw_at R g) [0..<n] #
        map (\<lambda>j. map (\<lambda>i. draw_at R (nth_state R n g) (j * n + i)) [0..<n]) [0..<m]"
    by (simp add: upt_conv_Cons map_Suc_upt [symmetric] draw_at_shift add.assoc del: upt_Suc)
  then show ?case
    by (simp add: Suc.IH draws_eq nth_state_add add.commute del: upt_Suc)
qed

lemma rand2_shape:
  "length (fst (rand2 R m n g)) = m"
  "j < m \<Longrightarrow> length (fst (rand2 R m n g) ! j) = n"
  "j < m \<Longrightarrow> i < n \<Longrightarrow> fst (rand2 R m n g) ! j ! i = draw_at R g (j * n + i)"
  by (simp_all add: rand2_eq)


section \<open>The initial population and the first best-fit\<close>

lemma population_generator_ok:
  assumes "0 < nparam e" and "0 < npop e"
    and "truthy (bounds e) \<longrightarrow> nat (nparam e) \<le> length (the (bounds e))"
    and "truthy (guess e) \<longrightarrow> length (the (guess e)) = nat (nparam e)"
  shows "\<exists>p. population_generator R e g =
            Inr (p, nth_state R (nat (nparam e) * nat (npop e)) g) \<and>
          length p = nat (npop e) \<and>
          (\<forall>i<nat (npop e). length (p ! i) = nat (nparam e) \<and>
             (\<forall>j<nat (nparam e). p ! i ! j =
                (if truthy (guess e) \<and> i = 0 then the (guess e) ! j
                 else scaled (bounds e) j (draw_at R g (j * nat (npop e) + i)))))"
  using assms
  by (auto simp: population_generator_def rand2_eq scale_bounds_def set_guess_def transpose_T_def
      scaled_def Let_def nth_list_update split: if_splits)

lemma population_generator_length:
  "population_generator R e g = Inr (p, g1) \<Longrightarrow> p = [] \<or> length p = nat (npop e)"
  by (auto simp: population_generator_def transpose_T_def Let_def split: if_splits sum.splits prod.splits)

lemma fill_errors_length [simp]: "length (fill_errors f k rows er) = length er"
  by (induction rows arbitrary: k er) auto

lemma fill_errors_below: "i < k \<Longrightarrow> fill_errors f k rows er ! i = er ! i"
  by (induction rows arbitrary: k er) auto

lemma fill_errors_nth:
  "k + length rows \<le> length er \<Longrightarrow> j < length rows \<Longrightarrow>
     fill_errors f k rows er ! (k + j) = f (rows ! j)"
proof (induction rows arbitrary: k er j)
  case Nil
  then show ?case by simp
next
  case (Cons row rows)
  show ?case
  proof (cases j)
    case 0
    with Cons.prems show ?thesis by (simp add: fill_errors_below)
  next
    case (Suc j')
    with Cons.prems Cons.IH [of "Suc k" "er[k := f row]" j'] show ?thesis by simp
  qed
qed

lemma argmin_less:
  assumes "xs \<noteq> []"
  shows "argmin xs < length xs"
proof -
  let ?P = "\<lambda>x. x \<noteq> Min (set xs)"
  from assms have "Min (set xs) \<in> set xs" by (intro Min_in) auto
  then have "takeWhile ?P xs \<noteq> xs" by auto
  moreover have "takeWhile ?P xs = take (length (takeWhile ?P xs)) xs"
    by (rule takeWhile_eq_take)
  ultimately have "length (takeWhile ?P xs) \<noteq> length xs"
    by (metis take_all order_refl)
  moreover have "length (takeWhile ?P xs) \<le> length xs"
    by (rule length_takeWhile_le)
  ultimately show ?thesis by (simp add: argmin_def)
qed

lemma argmin_min:
  assumes "xs \<noteq> []"
  shows "xs ! argmin xs = Min (set xs)"
  using nth_length_takeWhile [of "\<lambda>x. x \<noteq> Min (set xs)" xs] argmin_less [OF assms]
  by (simp add: argmin_def)

lemma solver_start_nonempty: "solver_start R e w = Inr s0 \<Longrightarrow> pop s0 \<noteq> [] \<and> emitted s0 = []"
  by (auto simp: solver_start_def split: sum.splits prod.splits if_splits)

section \<open>One pass of the inner loop, and the loops\<close>

lemma mutation_npop_one: "npop e = 1 \<Longrightarrow> mutation R e w s = Inl ValueError"
  by (simp add: mutation_def)

lemma inner_step_cases:
  assumes "inner_step R e w i s = Inr s'"
  obtains (keep) trial g3 where
      "make_trial R e w i s = Inr (trial, g3)"
      "\<not> func e trial < func e (pop s ! i)"
      "s' = s\<lparr>rng := g3\<rparr>"
  | (replace) trial g3 p' where
      "make_trial R e w i s = Inr (trial, g3)"
      "func e trial < func e (pop s ! i)"
      "assign_row (pop s) i trial = Inr p'"
      "\<not> func e trial < lst_err s"
      "s' = s\<lparr>pop := p', rng := g3\<rparr>"
  | (improve) trial g3 p' where
      "make_trial R e w i s = Inr (trial, g3)"
      "func e trial < func e (pop s ! i)"
      "assign_row (pop s) i trial = Inr p'"
      "func e trial < lst_err s"
      "s' = s\<lparr>pop := p', bestfit := Own trial, lst_err := func e trial, rng := g3,
               emitted := emitted s @ [(trial, func e trial)]\<rparr>"
  using assms
  by (auto simp: inner_step_def Let_def split: sum.splits prod.splits if_splits)

lemma assign_row_cases:
  assumes "assign_row p i trial = Inr p'"
  obtains v where "p' = p[i := v]" "length v = length (p ! i)"
    "length trial = length (p ! i) \<or> length trial = 1" "length trial = length (p ! i) \<longrightarrow> v = trial"
  using assms by (auto simp: assign_row_def split: if_splits)

lemma inner_step_length:
  "inner_step R e w i s = Inr s' \<Longrightarrow> length (pop s') = length (pop s)"
  by (erule inner_step_cases) (auto elim!: assign_row_cases)

lemma inner_loop_length:
  "inner_loop R e w js s = (s', r) \<Longrightarrow> length (pop s') = length (pop s)"
proof (induction js arbitrary: s)
  case Nil
  then show ?case by simp
next
  case (Cons i js)
  then show ?case
    by (auto split: sum.splits dest: inner_step_length)
qed

lemma inner_loop_append:
  "inner_loop R e w (xs @ ys) s =
     (case inner_loop R e w xs s of
        (s', Some err) \<Rightarrow> (s', Some err)
      | (s', None) \<Rightarrow> inner_loop R e w ys s')"
  by (induction xs arbitrary: s) (auto split: sum.splits)

lemma schedule_Suc: "schedule (Suc n) m = [0..<m] @ schedule n m"
  by (simp add: schedule_def)

lemma outer_loop_flat:
  "outer_loop R e w n s = inner_loop R e w (schedule n (length (pop s))) s"
proof (induction n arbitrary: s)
  case 0
  show ?case by (simp add: schedule_def)
next
  case (Suc n)
  obtain s1 r1 where l: "inner_loop R e w [0..<length (pop s)] s = (s1, r1)"
    by (cases "inner_loop R e w [0..<length (pop s)] s")
  then have len: "length (pop s1) = length (pop s)"
    by (rule inner_loop_length)
  show ?case
    by (cases r1) (simp_all add: schedule_Suc inner_loop_append l Suc.IH len)
qed

section \<open>Costs along a run\<close>

lemma inner_step_cost:
  assumes "inner_step R e w i s = Inr s'"
  shows "lst_err s' \<le> lst_err s \<and>
         (\<exists>ys. emitted s' = emitted s @ ys \<and> sorted_wrt (>) (map snd ys) \<and>
               (\<forall>y\<in>set ys. snd y < lst_err s \<and> lst_err s' \<le> snd y \<and> snd y = func e (fst y)))"
  using assms by (rule inner_step_cases) auto

lemma inner_loop_cost:
  "inner_loop R e w js s = (s', r) \<Longrightarrow>
     lst_err s' \<le> lst_err s \<and>
     (\<exists>ys. emitted s' = emitted s @ ys \<and> sorted_wrt (>) (map snd ys) \<and>
           (\<forall>y\<in>set ys. snd y < lst_err s \<and> lst_err s' \<le> snd y \<and> snd y = func e (fst y)))"
proof (induction js arbitrary: s)
  case Nil
  then show ?case by simp
next
  case (Cons i js)
  show ?case
  proof (cases "inner_step R e w i s")
    case (Inl err)
    with Cons.prems show ?thesis by simp
  next
    case (Inr s1)
    with Cons.prems have rest: "inner_loop R e w js s1 = (s', r)" by simp
    from inner_step_cost [OF Inr] obtain ys1 where
      a: "lst_err s1 \<le> lst_err s" "emitted s1 = emitted s @ ys1" "sorted_wrt (>) (map snd ys1)"
         "\<forall>y\<in>set ys1. snd y < lst_err s \<and> lst_err s1 \<le> snd y \<and> snd y = func e (fst y)"
      by blast
    from Cons.IH [OF rest] obtain ys2 where
      b: "lst_err s' \<le> lst_err s1" "emitted s' = emitted s1 @ ys2" "sorted_wrt (>) (map snd ys2)"
         "\<forall>y\<in>set ys2. snd y < lst_err s1 \<and> lst_err s' \<le> snd y \<and> snd y = func e (fst y)"
      by blast
    have "sorted_wrt (>) (map snd (ys1 @ ys2))"
      using a b by (fastforce simp: sorted_wrt_append)
    moreover have "\<forall>y\<in>set (ys1 @ ys2). snd y < lst_err s \<and> lst_err s' \<le> snd y \<and> snd y = func e (fst y)"
      using a b by fastforce
    moreover have "emitted s' = emitted s @ (ys1 @ ys2)"
      using a b by simp
    ultimately have
      "\<exists>ys. emitted s' = emitted s @ ys \<and> sorted_wrt (>) (map snd ys) \<and>
            (\<forall>y\<in>set ys. snd y < lst_err s \<and> lst_err s' \<le> snd y \<and> snd y = func e (fst y))"
      by blast
    moreover from a(1) b(1) have "lst_err s' \<le> lst_err s" by simp
    ultimately show ?thesis by (rule conjI [rotated])
  qed
qed

lemma state_after_mono:
  assumes "k \<le> k'"
  shows "lst_err (state_after R e w k' s0) \<le> lst_err (state_after R e w k s0)"
proof -
  let ?sch = "schedule (nat (niter e)) (length (pop s0))"
  have split: "take k' ?sch = take k ?sch @ drop k (take k' ?sch)"
    using assms by (metis append_take_drop_id min.absorb1 take_take)
  obtain s1 r1 where l1: "inner_loop R e w (take k ?sch) s0 = (s1, r1)"
    by (cases "inner_loop R e w (take k ?sch) s0")
  obtain s2 r2 where l2: "inner_loop R e w (drop k (take k' ?sch)) s1 = (s2, r2)"
    by (cases "inner_loop R e w (drop k (take k' ?sch)) s1")
  have "state_after R e w k' s0 = (case r1 of None \<Rightarrow> s2 | Some err \<Rightarrow> s1)"
    unfolding state_after_def
    by (subst split) (simp add: inner_loop_append l1 l2 split: option.splits)
  moreover have "state_after R e w k s0 = s1"
    by (simp add: state_after_def l1)
  moreover have "lst_err s2 \<le> lst_err s1"
    using inner_loop_cost [OF l2] by simp
  ultimately show ?thesis by (simp split: option.splits)
qed

lemma solver_emitted_sorted:
  "sorted_wrt (>) (map snd (fst (diff_evolution_solver R e w)))"
proof (cases "solver_start R e w")
  case (Inl err)
  then show ?thesis by (simp add: diff_evolution_solver_def)
next
  case (Inr s0)
  obtain s r where l: "outer_loop R e w (nat (niter e)) s0 = (s, r)"
    by (cases "outer_loop R e w (nat (niter e)) s0")
  then have "inner_loop R e w (schedule (nat (niter e)) (length (pop s0))) s0 = (s, r)"
    by (simp add: outer_loop_flat)
  from inner_loop_cost [OF this] solver_start_nonempty [OF Inr]
  have "sorted_wrt (>) (map snd (emitted s))" by auto
  then show ?thesis by (simp add: diff_evolution_solver_def Inr l)
qed

lemma best_value_rng [simp]: "best_value (s\<lparr>rng := g\<rparr>) = best_value s"
  by (simp add: best_value_def split: bestref.splits)

lemma best_ok_rng [simp]: "best_ok e (s\<lparr>rng := g\<rparr>) = best_ok e s"
  by (simp add: best_ok_def split: bestref.splits)

lemma solver_start_best_ok:
  assumes "solver_start R e w = Inr s0"
  shows "best_ok e s0"
proof -
  from assms obtain p g1 idx le where
    pg: "population_generator R e (np_state w) = Inr (p, g1)" and
    le: "least_error_idx e p = Inr (idx, le)" and
    idx: "idx < length p" and
    s0: "s0 = \<lparr>pop = p, bestfit = RowView idx, lst_err = le, rng = g1, emitted = []\<rparr>"
    by (auto simp: solver_start_def split: sum.splits prod.splits if_splits)
  from idx population_generator_length [OF pg] have len: "length p = nat (npop e)" by auto
  let ?er = "fill_errors (func e) 0 p (replicate (nat (npop e)) 0)"
  from le have "le = ?er ! idx" by (auto simp: least_error_idx_def Let_def split: if_splits)
  moreover have "?er ! (0 + idx) = func e (p ! idx)"
    by (rule fill_errors_nth) (use len idx in simp_all)
  ultimately show ?thesis by (simp add: best_ok_def best_value_def s0 idx)
qed

lemma inner_step_best_ok:
  assumes "inner_step R e w i s = Inr s'" and "best_ok e s"
  shows "best_ok e s'"
  using assms(1)
proof (cases rule: inner_step_cases)
  case (keep trial g3)
  with assms(2) show ?thesis by simp
next
  case (replace trial g3 p')
  from replace(3) obtain v where p': "p' = (pop s)[i := v]"
    by (rule assign_row_cases)
  show ?thesis
  proof (cases "bestfit s")
    case (RowView k)
    with assms(2) have k: "k < length (pop s)" and c: "lst_err s = func e (pop s ! k)"
      by (simp_all add: best_ok_def best_value_def)
    from replace(2,4) c have "k \<noteq> i" by auto
    with k c show ?thesis by (simp add: best_ok_def best_value_def replace(5) RowView p')
  next
    case (Own v')
    with assms(2) show ?thesis by (simp add: best_ok_def best_value_def replace(5))
  qed
next
  case (improve trial g3 p')
  then show ?thesis by (simp add: best_ok_def best_value_def)
qed

lemma inner_loop_best_ok:
  "inner_loop R e w js s = (s', r) \<Longrightarrow> best_ok e s \<Longrightarrow> best_ok e s'"
proof (induction js arbitrary: s)
  case Nil
  then show ?case by simp
next
  case (Cons i js)
  then show ?case
    by (auto split: sum.splits dest: inner_step_best_ok)
qed

section \<open>Bounds along a run\<close>









lemma bounded_state_rng [simp]: "bounded_state bs n (s\<lparr>rng := g\<rparr>) = bounded_state bs n s"
  by (simp add: bounded_state_def split: bestref.splits)





section \<open>What a run reads from the module state\<close>








section \<open>Further facts about single steps\<close>

lemma result_empty_stream:
  "diff_evolution_solver R e w = ([], None) \<Longrightarrow> result R e w = Inl ValueError"
  by (simp add: result_def)

lemma result_last:
  "diff_evolution_solver R e w = (ys, None) \<Longrightarrow> ys \<noteq> [] \<Longrightarrow> result R e w = Inr (fst (last ys))"
  by (simp add: result_def)

lemma niter_zero_stream:
  assumes "niter e \<le> 0" and "solver_start R e w = Inr s0"
  shows "diff_evolution_solver R e w = ([], None)"
  using assms solver_start_nonempty [OF assms(2)]
  by (simp add: diff_evolution_solver_def)

lemma crossover_four:
  assumes "length t = 4" and "length ind = 4"
  shows "crossover R e t ind g =
           Inr (map (\<lambda>j. if j < 3 \<and> \<not> draw_at R g j \<le> kcross e then ind ! j else t ! j) [0..<4],
                nth_state R 3 g)"
proof -
  have u: "[0..<4] = [0, 1, 2, 3]" "[0..<3] = [0, 1, 2]"
    by (simp_all add: upt_conv_Cons)
  show ?thesis
    using assms
    by (simp add: crossover_def draws_eq np_where_def bdim_def bget_def u nth_append nth_Cons'
        eval_nat_numeral)
qed

lemma crossover_shape_error:
  assumes "length t = length ind" and "length t \<noteq> 4" and "length t \<noteq> 1"
  shows "crossover R e t ind g = Inl ValueError"
  using assms
  by (simp add: crossover_def draws_eq np_where_def bdim_def split: prod.splits)

lemma np_binop_same_length:
  assumes "length x = length y"
  shows "np_binop f x y = Inr (map2 f x y)"
proof -
  have "map (\<lambda>j. f (bget x j) (bget y j)) [0..<length x] = map2 f x y"
    using assms by (intro nth_equalityI) (auto simp: bget_def)
  with assms show ?thesis by (simp add: np_binop_def bdim_def)
qed

lemma mutation_value:
  assumes "2 \<le> npop e" and "glob_kmut w = Some km"
    and "choice2 R (nat (npop e)) (rng s) = ((r1, r2), g1)"
    and "length (pop s ! r1) = length (pop s ! r2)"
    and "length (best_value s) = length (pop s ! r1)"
  shows "mutation R e w s =
           Inr (map2 (+) (best_value s) (map ((*) km) (map2 (-) (pop s ! r1) (pop s ! r2))), g1)"
  using assms
  by (simp add: mutation_def np_binop_same_length)

lemma mutation_ignores_kmut: "mutation R (e\<lparr>kmut := k\<rparr>) w s = mutation R e w s"
  by (simp add: mutation_def)

lemma make_trial_ignores_configured:
  "make_trial R (e\<lparr>kmut := k, bounds := b\<rparr>) w i s = make_trial R e w i s"
proof -
  have m: "mutation R (e\<lparr>kmut := k, bounds := b\<rparr>) w s = mutation R e w s"
    by (simp add: mutation_def)
  have c: "crossover R (e\<lparr>kmut := k, bounds := b\<rparr>) t ind g = crossover R e t ind g" for t ind g
    by (simp add: crossover_def)
  show ?thesis by (simp add: make_trial_def m c split: sum.splits prod.splits)
qed

lemma repair_outside:
  assumes "glob_bounds w = Some bs" and "j < length bs" and "j < ncols"
    and "\<not> (fst (bs ! j) \<le> t ! j \<and> t ! j \<le> snd (bs ! j))"
  shows "repair R w p ncols (j # js) t g =
           repair R w p ncols js
             (t[j := Min (set (map (\<lambda>row. row ! j) p)) +
                     fst (random_sample R g) *
                     (Max (set (map (\<lambda>row. row ! j) p)) - Min (set (map (\<lambda>row. row ! j) p)))])
             (snd (random_sample R g))"
  using assms by (auto simp: Let_def split: prod.splits)

lemma repair_inside:
  assumes "glob_bounds w = Some bs" and "j < length bs"
    and "fst (bs ! j) \<le> t ! j \<and> t ! j \<le> snd (bs ! j)"
  shows "repair R w p ncols (j # js) t g = repair R w p ncols js t g"
  using assms by auto

lemma state_after_best_ok:
  assumes "solver_start R e w = Inr s0"
  shows "best_ok e (state_after R e w k s0)"
proof -
  obtain s r where l: "inner_loop R e w (take k (schedule (nat (niter e)) (length (pop s0)))) s0 = (s, r)"
    by (cases "inner_loop R e w (take k (schedule (nat (niter e)) (length (pop s0)))) s0")
  from inner_loop_best_ok [OF l solver_start_best_ok [OF assms]]
  show ?thesis by (simp add: state_after_def l)
qed

lemma state_after_cost:
  "solver_start R e w = Inr s0 \<Longrightarrow>
     lst_err (state_after R e w k s0) = func e (best_value (state_after R e w k s0))"
  using state_after_best_ok [of R e w s0 k] by (simp add: best_ok_def)

lemma state_after_emitted:
  assumes "solver_start R e w = Inr s0"
  shows "list_all (\<lambda>y. snd y < lst_err s0 \<and> snd y = func e (fst y)) (emitted (state_after R e w k s0))"
proof -
  obtain s r where l: "inner_loop R e w (take k (schedule (nat (niter e)) (length (pop s0)))) s0 = (s, r)"
    by (cases "inner_loop R e w (take k (schedule (nat (niter e)) (length (pop s0)))) s0")
  from inner_loop_cost [OF l] solver_start_nonempty [OF assms]
  show ?thesis by (auto simp: state_after_def l list_all_iff)
qed

lemma solver_is_state_after:
  assumes "solver_start R e w = Inr s0"
  shows "fst (diff_evolution_solver R e w) =
           emitted (state_after R e w (length (schedule (nat (niter e)) (length (pop s0)))) s0)"
  by (simp add: diff_evolution_solver_def assms state_after_def outer_loop_flat split: prod.splits)

lemma solver_start_npop_pos:
  assumes "solver_start R e w = Inr s0"
  shows "0 < npop e \<and> length (pop s0) = nat (npop e)"
proof -
  from assms obtain p g1 idx where
    pg: "population_generator R e (np_state w) = Inr (p, g1)" and
    idx: "idx < length p" and "pop s0 = p"
    by (auto simp: solver_start_def split: sum.splits prod.splits if_splits)
  with population_generator_length [OF pg] show ?thesis
    by (cases "0 < npop e") auto
qed

text \<open>
  What the two global names do to a run when they differ from the configured values. With
  the configured bounds \<open>(0, 1)\<close>, no guess and a global \<open>bounds\<close> of \<open>(-10, 10)\<close>, the
  member \<open>(-1/8, 5/8, 3/4, 1/8)\<close> is retained at the end of the first generation. Two
  engines constructed with the same arguments and seed, each run right after its
  construction, return different results where the global \<open>kmut\<close> is \<open>1/2\<close> for the one
  and \<open>1/4\<close> for the other.
\<close>

lemma global_bounds_mismatch_leaves_bounds:
  "bounds demo_engine = Some unit_bounds \<and> guess demo_engine = None \<and>
   glob_bounds wide_env = Some wide_bounds \<and>
   generation_end demo_gen demo_engine wide_env 1 = Inr (wide_state, None) \<and>
   pop wide_state ! 1 = [- (1 / 8), 5 / 8, 3 / 4, 1 / 8] \<and>
   \<not> in_bounds unit_bounds (pop wide_state ! 1)"
  by code_simp

lemma global_kmut_mismatch_changes_result:
  "init demo_gen sum_list (1 / 2) (1 / 2) 4 3 1 (Some unit_bounds) None (Some 0) demo_env =
     Inr (demo_engine, seeded_env) \<and>
   init demo_gen sum_list (1 / 2) (1 / 2) 4 3 1 (Some unit_bounds) None (Some 0)
     (demo_env\<lparr>glob_kmut := Some (1 / 4)\<rparr>) = Inr (demo_engine, quarter_env) \<and>
   result demo_gen demo_engine seeded_env = Inr [0, 3 / 16, 1 / 2, 1 / 8] \<and>
   result demo_gen demo_engine quarter_env = Inr [1 / 8, 0, 3 / 8, 3 / 8]"
proof -
  have i1: "init demo_gen sum_list (1 / 2) (1 / 2) 4 3 1 (Some unit_bounds) None (Some 0) demo_env =
     Inr (demo_engine, seeded_env)"
    by (simp add: init_def demo_gen_def demo_engine_def seeded_env_def)
  have i2: "init demo_gen sum_list (1 / 2) (1 / 2) 4 3 1 (Some unit_bounds) None (Some 0)
     (demo_env\<lparr>glob_kmut := Some (1 / 4)\<rparr>) = Inr (demo_engine, quarter_env)"
    by (simp add: init_def demo_gen_def demo_engine_def seeded_env_def quarter_env_def)
  have r1: "result demo_gen demo_engine seeded_env = Inr [0, 3 / 16, 1 / 2, 1 / 8]"
    by code_simp
  have r2: "result demo_gen demo_engine quarter_env = Inr [1 / 8, 0, 3 / 8, 3 / 8]"
    by code_simp
  from i1 i2 r1 r2 show ?thesis by blast
qed

section \<open>The claims\<close>

text \<open>
  C1. Claim: when the improvement stream yields no element (for instance with \<open>niter = 0\<close>,
  or with an objective that returns the same cost for every vector), \<open>result\<close> does not fail
  and returns the initial best-fit. The code does not do this: \<open>result\<close> unpacks
  \<open>zip(*tuple(...))\<close> into two names, which raises \<open>ValueError\<close> on the empty stream. Here
  the solver starts well (its first state is \<open>demo_state\<close>, with the initial best-fit in row
  0), the stream is empty, and \<open>result\<close> raises, both for \<open>niter = 0\<close> and for the constant
  objective.
\<close>

theorem result_raises_on_empty_stream:
  "solver_start demo_gen idle_engine seeded_env = Inr demo_state \<and>
   diff_evolution_solver demo_gen idle_engine seeded_env = ([], None) \<and>
   result demo_gen idle_engine seeded_env = Inl ValueError \<and>
   diff_evolution_solver demo_gen flat_engine seeded_env = ([], None) \<and>
   result demo_gen flat_engine seeded_env = Inl ValueError"
  by code_simp

text \<open>
  C2. Claim: for every \<open>nparam\<close>, crossover takes each index but the last from the mutated
  vector when its draw is at most \<open>kcross\<close>, and the last index always. The code draws
  exactly three values and appends one \<open>True\<close>, so the mask has four entries whatever
  \<open>nparam\<close> is: with two parameters \<open>np.where\<close> cannot broadcast the shapes and raises
  \<open>ValueError\<close> in the first pass of the inner loop, and with one parameter it returns
  a trial of four entries. (For four parameters the step is as claimed: lemma
  \<open>crossover_four\<close>.)
\<close>

theorem crossover_fails_for_two_parameters:
  "nparam pair_engine = 2 \<and>
   crossover demo_gen pair_engine [1, 2] [3, 4] 0 = Inl ValueError \<and>
   diff_evolution_solver demo_gen pair_engine seeded_env = ([], Some ValueError) \<and>
   crossover demo_gen demo_engine [1] [3] 0 = Inr ([1, 1, 1, 1], 3)"
  by code_simp

text \<open>
  C3, as amended. \<open>__init__\<close> validates nothing: whenever the seed is \<open>None\<close> or lies in
  \<open>0 .. 2^32 - 1\<close> it succeeds and stores \<open>nparam\<close>, \<open>npop\<close>, \<open>kmut\<close>, \<open>kcross\<close> and
  the bounds exactly as given, whatever their values.
\<close>

theorem init_stores_unchecked:
  assumes "seed = None \<or> (\<exists>s. seed = Some s \<and> 0 \<le> s \<and> s < 2 ^ 32)"
  shows "init R f km kc np0 npop0 niter0 bs gs seed w =
     Inr (\<lparr>func = f, kmut = km, kcross = kc, nparam = np0, npop = npop0, niter = niter0,
            bounds = bs, guess = gs\<rparr>,
          w\<lparr>np_state := (case seed of None \<Rightarrow> os_entropy w | Some s \<Rightarrow> seed_state R (nat s))\<rparr>)"
  using assms by (auto simp: init_def)

text \<open>The notebook's kind of configuration, seeded with 0.\<close>

theorem init_stores_unchecked_witness:
  "(Some 0 = (None :: int option) \<or> (\<exists>s::int. Some 0 = Some s \<and> 0 \<le> s \<and> s < 2 ^ 32)) \<and>
   init demo_gen sum_list (1 / 2) (1 / 2) 4 3 1 (Some unit_bounds) None (Some 0) demo_env =
     Inr (demo_engine, seeded_env)"
proof -
  have h: "Some 0 = (None :: int option) \<or> (\<exists>s::int. Some 0 = Some s \<and> 0 \<le> s \<and> s < 2 ^ 32)"
    by simp
  from init_stores_unchecked [OF h, of demo_gen sum_list "1 / 2" "1 / 2" 4 3 1
      "Some unit_bounds" None demo_env]
  show ?thesis by (simp add: demo_engine_def demo_gen_def seeded_env_def)
qed

text \<open>
  C3 as stated fails: a configuration with \<open>nparam = 0\<close>, \<open>npop = -3\<close>, \<open>kmut = 2\<close>,
  \<open>kcross = -1\<close> and a bounds entry with \<open>low = 5 > high = 1\<close> is accepted at
  construction.
\<close>

theorem init_accepts_invalid_configuration:
  "init demo_gen sum_list 2 (- 1) 0 (- 3) 5 (Some [(5, 1)]) None (Some 0) demo_env =
     Inr (\<lparr>func = sum_list, kmut = 2, kcross = - 1, nparam = 0, npop = - 3, niter = 5,
            bounds = Some [(5, 1)], guess = None\<rparr>, seeded_env)"
  by (simp add: init_def demo_gen_def seeded_env_def)

text \<open>
  C4. The costs of the pairs the solver yields are strictly decreasing. Along the run,
  counted in passes of the inner loop, the stored best-fit cost \<open>lst_err\<close> never
  increases; it is the cost of the best-fit vector; every yielded pair carries the cost of
  its vector, which is below the initial least error; and the drained stream is what the
  state after the last pass has emitted.
\<close>

theorem improvements_strictly_decrease:
  fixes R :: "'g np_random"
  shows
  "sorted_wrt (>) (map snd (fst (diff_evolution_solver R e w))) \<and>
   (\<forall>s0 k k'. solver_start R e w = Inr s0 \<and> k \<le> k' \<longrightarrow>
      lst_err (state_after R e w k' s0) \<le> lst_err (state_after R e w k s0) \<and>
      lst_err (state_after R e w k s0) = func e (best_value (state_after R e w k s0)) \<and>
      list_all (\<lambda>y. snd y < lst_err s0 \<and> snd y = func e (fst y))
        (emitted (state_after R e w k s0)) \<and>
      fst (diff_evolution_solver R e w) =
        emitted (state_after R e w (length (schedule (nat (niter e)) (length (pop s0)))) s0))"
proof -
  have "lst_err (state_after R e w k' s0) \<le> lst_err (state_after R e w k s0) \<and>
      lst_err (state_after R e w k s0) = func e (best_value (state_after R e w k s0)) \<and>
      list_all (\<lambda>y. snd y < lst_err s0 \<and> snd y = func e (fst y))
        (emitted (state_after R e w k s0)) \<and>
      fst (diff_evolution_solver R e w) =
        emitted (state_after R e w (length (schedule (nat (niter e)) (length (pop s0)))) s0)"
    if "solver_start R e w = Inr s0" and "k \<le> k'" for s0 :: "'g state" and k k'
    using state_after_mono [OF that(2), of R e w s0] state_after_cost [OF that(1), of k]
      state_after_emitted [OF that(1), of k] solver_is_state_after [OF that(1)]
    by blast
  with solver_emitted_sorted [of R e w] show ?thesis by blast
qed

text \<open>Three generations of \<open>demo_engine\<close>: two improvements, of cost 13/16 and 3/4.\<close>

theorem improvements_strictly_decrease_witness:
  "solver_start demo_gen long_engine seeded_env = Inr demo_state \<and>
   fst (diff_evolution_solver demo_gen long_engine seeded_env) =
     [([0, 3 / 16, 1 / 2, 1 / 8], 13 / 16), ([0, 9 / 64, 9 / 16, 3 / 64], 3 / 4)] \<and>
   sorted_wrt (>) (map snd (fst (diff_evolution_solver demo_gen long_engine seeded_env))) \<and>
   lst_err (state_after demo_gen long_engine seeded_env 7 demo_state)
     \<le> lst_err (state_after demo_gen long_engine seeded_env 2 demo_state) \<and>
   lst_err (state_after demo_gen long_engine seeded_env 2 demo_state) =
     func long_engine (best_value (state_after demo_gen long_engine seeded_env 2 demo_state))"
proof -
  have h: "solver_start demo_gen long_engine seeded_env = Inr demo_state"
    by code_simp
  have v: "fst (diff_evolution_solver demo_gen long_engine seeded_env) =
     [([0, 3 / 16, 1 / 2, 1 / 8], 13 / 16), ([0, 9 / 64, 9 / 16, 3 / 64], 3 / 4)]"
    by code_simp
  have le: "(2::nat) \<le> 7" by simp
  from improvements_strictly_decrease [of demo_gen long_engine seeded_env] h le v
  show ?thesis by blast
qed




text \<open>
  C6. Claim: the trial before crossover is \<open>bestfit + kmut * (pop[r1] - pop[r2])\<close> with the
  mutation factor the engine was constructed with. The code multiplies by the global name
  \<open>kmut\<close>, not by \<open>self.kmut\<close> (lemmas \<open>mutation_value\<close>, \<open>mutation_ignores_kmut\<close>): an
  engine constructed with \<open>kmut = 1/2\<close> in a module whose global \<open>kmut\<close> is \<open>1/4\<close>
  mutates with \<open>1/4\<close>; the trial with the factor \<open>1/2\<close> is the one the same engine forms
  where the global is \<open>1/2\<close>. The indices drawn here are \<open>r1 = 0\<close>, \<open>r2 = 1\<close>.
\<close>

theorem mutation_uses_global_kmut:
  "kmut demo_engine = 1 / 2 \<and> glob_kmut quarter_env = Some (1 / 4) \<and>
   glob_kmut seeded_env = Some (1 / 2) \<and>
   choice2 demo_gen 3 (rng demo_state) = ((0, 1), 13) \<and>
   best_value demo_state = [0, 3 / 4, 1 / 2, 1 / 4] \<and>
   pop demo_state ! 0 = [0, 3 / 4, 1 / 2, 1 / 4] \<and>
   pop demo_state ! 1 = [1 / 4, 0, 3 / 4, 1 / 2] \<and>
   mutation demo_gen demo_engine quarter_env demo_state =
     Inr ([- (1 / 16), 15 / 16, 7 / 16, 3 / 16], 13) \<and>
   mutation demo_gen demo_engine seeded_env demo_state =
     Inr ([- (1 / 8), 9 / 8, 3 / 8, 1 / 8], 13)"
  by code_simp

text \<open>
  C7. Claim: a trial value outside its configured bound interval is replaced by a draw
  between the population's minimum and maximum at that index. The replacement is as
  claimed (lemma \<open>repair_outside\<close>), but the interval the code tests is that of the global
  name \<open>bounds\<close>, not of \<open>self.bounds\<close> (lemma \<open>make_trial_ignores_configured\<close>): with the
  configured bounds \<open>(0, 1)\<close> and a global \<open>bounds\<close> of \<open>(-10, 10)\<close>, the trial values
  \<open>-1/8\<close> and \<open>9/8\<close> are kept. Where the global holds the configured bounds both are
  replaced.
\<close>

theorem repair_tests_global_bounds:
  "bounds demo_engine = Some unit_bounds \<and> glob_bounds wide_env = Some wide_bounds \<and>
   make_trial demo_gen demo_engine wide_env 0 demo_state =
     Inr ([- (1 / 8), 9 / 8, 1 / 2, 1 / 8], 16) \<and>
   \<not> in_bounds unit_bounds [- (1 / 8), 9 / 8, 1 / 2, 1 / 8] \<and>
   make_trial demo_gen demo_engine seeded_env 0 demo_state =
     Inr ([0, 3 / 16, 1 / 2, 1 / 8], 18)"
  by code_simp




text \<open>
  C9. For positive \<open>nparam\<close> and \<open>npop\<close> (and, with bounds, at least \<open>nparam\<close> of them):
  a guess of \<open>nparam\<close> entries is member 0 of the population \<open>population_generator\<close>
  returns, with and without bounds; with no guess, entry \<open>j\<close> of member \<open>i\<close> is the
  generator's draw number \<open>j * npop + i\<close>, rescaled into the bound interval when bounds are
  configured, so every entry is a draw of its own.
\<close>

theorem guess_is_first_member:
  assumes "0 < nparam e" and "0 < npop e"
    and "truthy (bounds e) \<longrightarrow> nat (nparam e) \<le> length (the (bounds e))"
  shows "(\<forall>gs. guess e = Some gs \<and> length gs = nat (nparam e) \<longrightarrow>
            (\<exists>p g1. population_generator R e g = Inr (p, g1) \<and> p ! 0 = gs)) \<and>
         (guess e = None \<longrightarrow>
            (\<exists>p g1. population_generator R e g = Inr (p, g1) \<and> length p = nat (npop e) \<and>
               (\<forall>i<nat (npop e). \<forall>j<nat (nparam e).
                  p ! i ! j = scaled (bounds e) j (draw_at R g (j * nat (npop e) + i)))))"
proof (intro conjI allI impI)
  fix gs
  assume h: "guess e = Some gs \<and> length gs = nat (nparam e)"
  with assms(1) have t: "truthy (guess e)" by (auto simp: truthy_def)
  from h have l: "truthy (guess e) \<longrightarrow> length (the (guess e)) = nat (nparam e)" by simp
  from population_generator_ok [OF assms l, of R g] obtain p where
    p: "population_generator R e g = Inr (p, nth_state R (nat (nparam e) * nat (npop e)) g)"
      "length p = nat (npop e)"
      "\<forall>i<nat (npop e). length (p ! i) = nat (nparam e) \<and>
             (\<forall>j<nat (nparam e). p ! i ! j =
                (if truthy (guess e) \<and> i = 0 then the (guess e) ! j
                 else scaled (bounds e) j (draw_at R g (j * nat (npop e) + i))))"
    by blast
  from assms(2) have "0 < nat (npop e)" by simp
  with p(3) t h have "length (p ! 0) = length gs" "\<forall>j<length (p ! 0). p ! 0 ! j = gs ! j"
    by auto
  then have "p ! 0 = gs" by (simp add: nth_equalityI)
  with p(1) show "\<exists>p g1. population_generator R e g = Inr (p, g1) \<and> p ! 0 = gs" by blast
next
  assume h: "guess e = None"
  then have t: "\<not> truthy (guess e)" by (simp add: truthy_def)
  then have l: "truthy (guess e) \<longrightarrow> length (the (guess e)) = nat (nparam e)" by simp
  from population_generator_ok [OF assms l, of R g] t
  show "\<exists>p g1. population_generator R e g = Inr (p, g1) \<and> length p = nat (npop e) \<and>
               (\<forall>i<nat (npop e). \<forall>j<nat (nparam e).
                  p ! i ! j = scaled (bounds e) j (draw_at R g (j * nat (npop e) + i)))"
    by auto
qed

text \<open>The guess \<open>(5, 5, 5, 5)\<close> with and without bounds, and the population without a guess.\<close>

theorem guess_is_first_member_witness:
  "0 < nparam guess_engine \<and> 0 < npop guess_engine \<and>
   truthy (bounds guess_engine) \<and>
   nat (nparam guess_engine) \<le> length (the (bounds guess_engine)) \<and>
   guess guess_engine = Some [5, 5, 5, 5] \<and>
   length [5, 5, 5, 5 :: real] = nat (nparam guess_engine) \<and>
   (\<exists>p g1. population_generator demo_gen guess_engine 0 = Inr (p, g1) \<and> p ! 0 = [5, 5, 5, 5]) \<and>
   population_generator demo_gen guess_engine 0 =
     Inr ([[5, 5, 5, 5], [1 / 4, 0, 3 / 4, 1 / 2], [1 / 2, 1 / 4, 0, 3 / 4]], 12) \<and>
   population_generator demo_gen (guess_engine\<lparr>bounds := None\<rparr>) 0 =
     Inr ([[5, 5, 5, 5], [1 / 4, 0, 3 / 4, 1 / 2], [1 / 2, 1 / 4, 0, 3 / 4]], 12) \<and>
   population_generator demo_gen demo_engine 0 =
     Inr ([[0, 3 / 4, 1 / 2, 1 / 4], [1 / 4, 0, 3 / 4, 1 / 2], [1 / 2, 1 / 4, 0, 3 / 4]], 12)"
proof -
  have h1: "0 < nparam guess_engine" by (simp add: guess_engine_def demo_engine_def)
  have h2: "0 < npop guess_engine" by (simp add: guess_engine_def demo_engine_def)
  have b1: "truthy (bounds guess_engine)"
    by (simp add: guess_engine_def demo_engine_def truthy_def unit_bounds_def)
  have b2: "nat (nparam guess_engine) \<le> length (the (bounds guess_engine))"
    by (simp add: guess_engine_def demo_engine_def unit_bounds_def)
  from b2 have h3: "truthy (bounds guess_engine) \<longrightarrow>
      nat (nparam guess_engine) \<le> length (the (bounds guess_engine))" by simp
  have g1: "guess guess_engine = Some [5, 5, 5, 5]" by (simp add: guess_engine_def)
  have g2: "length [5, 5, 5, 5 :: real] = nat (nparam guess_engine)"
    by (simp add: guess_engine_def demo_engine_def)
  have v1: "population_generator demo_gen guess_engine 0 =
     Inr ([[5, 5, 5, 5], [1 / 4, 0, 3 / 4, 1 / 2], [1 / 2, 1 / 4, 0, 3 / 4]], 12)"
    by code_simp
  have v2: "population_generator demo_gen (guess_engine\<lparr>bounds := None\<rparr>) 0 =
     Inr ([[5, 5, 5, 5], [1 / 4, 0, 3 / 4, 1 / 2], [1 / 2, 1 / 4, 0, 3 / 4]], 12)"
    by code_simp
  have v3: "population_generator demo_gen demo_engine 0 =
     Inr ([[0, 3 / 4, 1 / 2, 1 / 4], [1 / 4, 0, 3 / 4, 1 / 2], [1 / 2, 1 / 4, 0, 3 / 4]], 12)"
    by code_simp
  from guess_is_first_member [OF h1 h2 h3, of demo_gen 0] g1 g2
  have "\<exists>p g1. population_generator demo_gen guess_engine 0 = Inr (p, g1) \<and> p ! 0 = [5, 5, 5, 5]"
    by blast
  with h1 h2 b1 b2 g1 g2 v1 v2 v3 show ?thesis by blast
qed

text \<open>
  C10. With \<open>npop = 1\<close> and \<open>niter \<ge> 1\<close>, construction succeeds, and the run always ends
  in an exception with nothing yielded: once the solver has built its population, the
  first pass of the inner loop raises \<open>ValueError\<close>, since \<open>np.random.choice\<close> cannot take
  two of one index without replacement.
\<close>

theorem npop_one_fails:
  assumes "npop e = 1" and "0 < niter e"
  shows "init R (func e) (kmut e) (kcross e) (nparam e) (npop e) (niter e) (bounds e) (guess e)
           None w0 = Inr (e, w0\<lparr>np_state := os_entropy w0\<rparr>) \<and>
         (\<exists>err. diff_evolution_solver R e w = ([], Some err)) \<and>
         (\<forall>s0. solver_start R e w = Inr s0 \<longrightarrow>
            inner_step R e w 0 s0 = Inl ValueError \<and>
            diff_evolution_solver R e w = ([], Some ValueError))"
proof -
  have run: "inner_step R e w 0 s0 = Inl ValueError \<and>
      diff_evolution_solver R e w = ([], Some ValueError)"
    if st: "solver_start R e w = Inr s0" for s0
  proof -
    have step: "inner_step R e w 0 s0 = Inl ValueError"
      by (simp add: inner_step_def make_trial_def mutation_npop_one [OF assms(1)])
    from st have ne: "pop s0 \<noteq> []" and em: "emitted s0 = []"
      using solver_start_nonempty by blast+
    from ne have idx: "[0..<length (pop s0)] = 0 # [1..<length (pop s0)]"
      by (simp add: upt_conv_Cons)
    from assms(2) obtain n where n: "nat (niter e) = Suc n"
      by (cases "nat (niter e)") auto
    have "outer_loop R e w (nat (niter e)) s0 = (s0, Some ValueError)"
      by (simp add: n idx step)
    then have "diff_evolution_solver R e w = ([], Some ValueError)"
      by (simp add: diff_evolution_solver_def st em)
    with step show ?thesis by simp
  qed
  have fails: "\<exists>err. diff_evolution_solver R e w = ([], Some err)"
  proof (cases "solver_start R e w")
    case (Inl err)
    then show ?thesis by (simp add: diff_evolution_solver_def)
  next
    case (Inr s0)
    with run [of s0] show ?thesis by simp
  qed
  have "init R (func e) (kmut e) (kcross e) (nparam e) (npop e) (niter e) (bounds e)
      (guess e) None w0 = Inr (e, w0\<lparr>np_state := os_entropy w0\<rparr>)"
    by (simp add: init_def)
  with run fails show ?thesis by blast
qed

text \<open>The configuration \<open>demo_engine\<close> with a single member.\<close>

theorem npop_one_fails_witness:
  "npop single_engine = 1 \<and> 0 < niter single_engine \<and>
   solver_start demo_gen single_engine seeded_env = Inr single_state \<and>
   init demo_gen (func single_engine) (kmut single_engine) (kcross single_engine)
     (nparam single_engine) (npop single_engine) (niter single_engine) (bounds single_engine)
     (guess single_engine) None demo_env = Inr (single_engine, demo_env\<lparr>np_state := 7\<rparr>) \<and>
   inner_step demo_gen single_engine seeded_env 0 single_state = Inl ValueError \<and>
   diff_evolution_solver demo_gen single_engine seeded_env = ([], Some ValueError)"
proof -
  have h1: "npop single_engine = 1" by (simp add: single_engine_def)
  have h2: "0 < niter single_engine" by (simp add: single_engine_def demo_engine_def)
  have h3: "solver_start demo_gen single_engine seeded_env = Inr single_state" by code_simp
  from npop_one_fails [OF h1 h2, of demo_gen demo_env seeded_env] h1 h2 h3
  show ?thesis by (simp add: demo_env_def)
qed

end
